theory Spec2Isabelle
  imports Main "HOL-Library.Word"
begin

section \<open>Buffers\<close>

text \<open>
  A Node \<open>Buffer\<close> is a list of bytes. Offsets and sizes are JavaScript numbers that
  only ever hold integers here (sums of signed 32-bit values), so they are \<open>int\<close>.
\<close>

type_synonym byte = "8 word"
type_synonym buffer = "byte list"

datatype error =
    RangeError          \<comment> \<open>\<open>readInt32BE\<close> outside the buffer\<close>
  | TypeError           \<comment> \<open>a property read on \<open>undefined\<close>\<close>
  | SystemError string  \<comment> \<open>a rejected \<open>fs\<close> call, with its code\<close>
  | Error string        \<comment> \<open>\<open>throw new Error(message)\<close>\<close>

text \<open>
  \<open>Buffer.prototype.readInt32BE(offset)\<close>: the first and the last byte must exist, the
  first byte is shifted as a signed 32-bit value (\<open>first << 24\<close>), the other three are
  added unsigned.
\<close>

definition readInt32BE :: "buffer \<Rightarrow> int \<Rightarrow> error + int" where
  "readInt32BE buf offset =
     (if 0 \<le> offset \<and> offset + 3 < int (length buf)
      then Inr (sint (buf ! nat offset) * 2 ^ 24
              + uint (buf ! nat (offset + 1)) * 2 ^ 16
              + uint (buf ! nat (offset + 2)) * 2 ^ 8
              + uint (buf ! nat (offset + 3)))
      else Inl RangeError)"

text \<open>
  \<open>Buffer.prototype.slice(start, end)\<close>: a negative index counts from the end, both
  indices are clamped to the buffer, and an end before the start gives the empty buffer.
\<close>

definition adjustOffset :: "int \<Rightarrow> int \<Rightarrow> int" where
  "adjustOffset offset len =
     (if offset = 0 then 0
      else if offset < 0 then (if offset + len > 0 then offset + len else 0)
      else if offset < len then offset
      else len)"

definition slice :: "buffer \<Rightarrow> int \<Rightarrow> int \<Rightarrow> buffer" where
  "slice buf start end =
     (let s = adjustOffset start (int (length buf));
          e = adjustOffset end (int (length buf))
      in take (nat (e - s)) (drop (nat s) buf))"

definition slice_from :: "buffer \<Rightarrow> int \<Rightarrow> buffer" where
  "slice_from buf start =
     (let s = adjustOffset start (int (length buf)) in drop (nat s) buf)"

section \<open>base64\<close>

text \<open>
  \<open>buf.toString('base64')\<close> is the base64 of RFC 4648 with padding: three bytes give
  four characters of the alphabet, a rest of one or two bytes is padded with \<open>=\<close>.
\<close>

definition b64_alphabet :: string where
  "b64_alphabet = ''ABCDEFGHIJKLMNOPQRSTUVWXYZabcdefghijklmnopqrstuvwxyz0123456789+/''"

definition b64_char :: "nat \<Rightarrow> char" where
  "b64_char n = b64_alphabet ! n"

text \<open>The four 6-bit groups of three bytes \<open>a\<close>, \<open>b\<close>, \<open>c\<close>.\<close>

definition sextet1 :: "byte \<Rightarrow> nat" where
  "sextet1 a = unat a div 4"

definition sextet2 :: "byte \<Rightarrow> byte \<Rightarrow> nat" where
  "sextet2 a b = unat a mod 4 * 16 + unat b div 16"

definition sextet3 :: "byte \<Rightarrow> byte \<Rightarrow> nat" where
  "sextet3 b c = unat b mod 16 * 4 + unat c div 64"

definition sextet4 :: "byte \<Rightarrow> nat" where
  "sextet4 c = unat c mod 64"

fun base64 :: "buffer \<Rightarrow> string" where
  "base64 (a # b # c # rest) =
     [b64_char (sextet1 a), b64_char (sextet2 a b), b64_char (sextet3 b c),
      b64_char (sextet4 c)] @ base64 rest"
| "base64 [a, b] =
     [b64_char (sextet1 a), b64_char (sextet2 a b), b64_char (sextet3 b 0), CHR ''='']"
| "base64 [a] =
     [b64_char (sextet1 a), b64_char (sextet2 a 0), CHR ''='', CHR ''='']"
| "base64 [] = []"

text \<open>The decoder of the same RFC: the inverse table, four characters at a time.\<close>

fun index_of :: "'a \<Rightarrow> 'a list \<Rightarrow> nat" where
  "index_of x [] = 0"
| "index_of x (y # ys) = (if x = y then 0 else Suc (index_of x ys))"

definition b64_index :: "char \<Rightarrow> nat" where
  "b64_index c = index_of c b64_alphabet"

definition octet1 :: "nat \<Rightarrow> nat \<Rightarrow> byte" where
  "octet1 i1 i2 = of_nat (i1 * 4 + i2 div 16)"

definition octet2 :: "nat \<Rightarrow> nat \<Rightarrow> byte" where
  "octet2 i2 i3 = of_nat (i2 mod 16 * 16 + i3 div 4)"

definition octet3 :: "nat \<Rightarrow> nat \<Rightarrow> byte" where
  "octet3 i3 i4 = of_nat (i3 mod 4 * 64 + i4)"

fun base64_decode :: "string \<Rightarrow> buffer" where
  "base64_decode (c1 # c2 # c3 # c4 # rest) =
     (let i1 = b64_index c1; i2 = b64_index c2; i3 = b64_index c3; i4 = b64_index c4
      in if c3 = CHR ''='' then [octet1 i1 i2]
         else if c4 = CHR ''='' then [octet1 i1 i2, octet2 i2 i3]
         else [octet1 i1 i2, octet2 i2 i3, octet3 i3 i4] @ base64_decode rest)"
| "base64_decode _ = []"

section \<open>The icon extractor\<close>

record icon =
  type :: buffer  \<comment> \<open>the four tag bytes; the source decodes them to text and never reads them\<close>
  size :: int
  data :: buffer

text \<open>
  The \<open>while (start < totalSize)\<close> loop of \<open>readIcnsAsImageUri\<close>. It may run forever,
  so its result is an option: \<open>None\<close> is "does not return".
\<close>

partial_function (option) readIcns_loop ::
  "buffer \<Rightarrow> int \<Rightarrow> int \<Rightarrow> icon list \<Rightarrow> (error + icon list) option" where
  "readIcns_loop buf totalSize start icons =
     (if start < totalSize
      then (case readInt32BE buf (start + 4) of
              Inl e \<Rightarrow> Some (Inl e)
            | Inr sz \<Rightarrow>
                readIcns_loop buf totalSize (start + sz)
                  (icons @ [\<lparr>type = slice buf start (start + 4), size = sz,
                             data = slice buf (start + 8) (start + sz)\<rparr>]))
      else Some (Inr icons))"

text \<open>
  The offsets at which the loop tests its condition: 0, and after an entry that was
  read at \<open>start\<close>, \<open>start\<close> plus the length the entry declares.
\<close>

inductive reached :: "buffer \<Rightarrow> int \<Rightarrow> int \<Rightarrow> bool" for buf totalSize where
  reached_0: "reached buf totalSize 0"
| reached_next: "reached buf totalSize start \<Longrightarrow> start < totalSize \<Longrightarrow>
     readInt32BE buf (start + 4) = Inr sz \<Longrightarrow> reached buf totalSize (start + sz)"

text \<open>
  \<open>icons.sort((a, b) => b.size - a.size)\<close>: \<open>Array.prototype.sort\<close> is a stable sort
  (ECMAScript 2019), here an insertion sort: an element goes before the first one that
  the comparator does not put ahead of it.
\<close>

fun insert_by :: "('a \<Rightarrow> 'a \<Rightarrow> int) \<Rightarrow> 'a \<Rightarrow> 'a list \<Rightarrow> 'a list" where
  "insert_by cmp x [] = [x]"
| "insert_by cmp x (y # ys) =
     (if cmp x y \<le> 0 then x # y # ys else y # insert_by cmp x ys)"

definition sort_by :: "('a \<Rightarrow> 'a \<Rightarrow> int) \<Rightarrow> 'a list \<Rightarrow> 'a list" where
  "sort_by cmp xs = foldr (insert_by cmp) xs []"

definition by_size_desc :: "icon \<Rightarrow> icon \<Rightarrow> int" where
  "by_size_desc a b = size b - size a"

text \<open>
  \<open>imageData.slice(1, 4).toString() === 'PNG'\<close>: the UTF-8 decoding of at most three
  bytes is the text \<open>PNG\<close> exactly when the bytes are 0x50, 0x4E, 0x47.
\<close>

definition is_PNG :: "buffer \<Rightarrow> bool" where
  "is_PNG imageData = (slice imageData 1 4 = [0x50, 0x4E, 0x47])"

definition image_uri :: "buffer \<Rightarrow> string" where
  "image_uri imageData =
     (if is_PNG imageData then ''data:image/png;base64,'' @ base64 imageData else '''')"

text \<open>
  The body of \<open>readIcnsAsImageUri\<close> after the file is read. \<open>icons[0]\<close> of an empty
  array is \<open>undefined\<close>, and reading \<open>.data\<close> of it throws a TypeError.
\<close>

definition readIcns_buffer :: "buffer \<Rightarrow> (error + string) option" where
  "readIcns_buffer file =
     (case readInt32BE file 4 of
        Inl e \<Rightarrow> Some (Inl e)
      | Inr n \<Rightarrow>
          (case readIcns_loop (slice_from file 8) (n - 8) 0 [] of
             None \<Rightarrow> None
           | Some (Inl e) \<Rightarrow> Some (Inl e)
           | Some (Inr icons) \<Rightarrow>
               (case sort_by by_size_desc icons of
                  [] \<Rightarrow> Some (Inl TypeError)
                | first # _ \<Rightarrow> Some (Inr (image_uri (data first))))))"

section \<open>The host: file system, paths, identifiers\<close>

text \<open>
  What the functions read from outside is a parameter: the platform string, the \<open>fs\<close>
  calls (a rejected call is an error value; the file system does not change during a
  call), the home directory, the \<open>path\<close> functions of the host, the \<open>plist\<close> parser
  and the identifiers \<open>v4()\<close> returns, numbered by the calls made so far. The parser
  takes the bytes of the file: it stands for the UTF-8 decoding done by \<open>readFile\<close>
  followed by \<open>plist.parse\<close>, and its result has the four fields that the source's
  type assertion names.
\<close>

record plist_info =
  CFBundleIdentifier :: string
  CFBundleDisplayName :: string
  CFBundleExecutable :: string
  CFBundleIconFile :: string

record env =
  platform :: string
  homedir :: string
  readFile :: "string \<Rightarrow> error + buffer"
  readdir :: "string \<Rightarrow> error + string list"
  existsSync :: "string \<Rightarrow> bool"
  path_join :: "string list \<Rightarrow> string"
  path_resolve :: "string list \<Rightarrow> string"
  path_basename :: "string \<Rightarrow> string \<Rightarrow> string"
  plist_parse :: "buffer \<Rightarrow> error + plist_info"
  v4 :: "nat \<Rightarrow> string"

record AppInfo =
  id :: string
  name :: string
  icon :: string
  appPath :: string
  exePath :: string

definition readIcnsAsImageUri :: "env \<Rightarrow> string \<Rightarrow> (error + string) option" where
  "readIcnsAsImageUri env file =
     (case readFile env file of
        Inl e \<Rightarrow> Some (Inl e)
      | Inr buf \<Rightarrow> readIcns_buffer buf)"

subsection \<open>POSIX paths\<close>

text \<open>
  \<open>path.posix\<close> of Node, the \<open>path\<close> module on darwin. \<open>normalizeString\<close> walks the
  segments between slashes: empty segments and \<open>.\<close> are dropped, \<open>..\<close> removes the
  segment before it (or stays, above the root of a relative path).
\<close>

fun split_slash :: "string \<Rightarrow> string list" where
  "split_slash [] = [[]]"
| "split_slash (c # cs) =
     (if c = CHR ''/'' then [] # split_slash cs
      else (case split_slash cs of
              [] \<Rightarrow> [[c]]
            | s # ss \<Rightarrow> (c # s) # ss))"

fun join_slash :: "string list \<Rightarrow> string" where
  "join_slash [] = []"
| "join_slash [s] = s"
| "join_slash (s # t # ss) = s @ CHR ''/'' # join_slash (t # ss)"

definition normalize_step :: "bool \<Rightarrow> string list \<Rightarrow> string \<Rightarrow> string list" where
  "normalize_step allowAboveRoot res seg =
     (if seg = [] \<or> seg = ''.'' then res
      else if seg = ''..''
        then (if res \<noteq> [] \<and> last res \<noteq> ''..'' then butlast res
              else if allowAboveRoot then res @ [''..''] else res)
      else res @ [seg])"

definition normalizeString :: "string \<Rightarrow> bool \<Rightarrow> string" where
  "normalizeString p allowAboveRoot =
     join_slash (foldl (normalize_step allowAboveRoot) [] (split_slash p))"

definition isAbsolute :: "string \<Rightarrow> bool" where
  "isAbsolute p = (case p of [] \<Rightarrow> False | c # _ \<Rightarrow> c = CHR ''/'')"

text \<open>
  \<open>path.posix.resolve\<close>: the arguments are prepended from the right until the path is
  absolute, the working directory last.
\<close>

fun resolve_args :: "string list \<Rightarrow> string \<Rightarrow> string" where
  "resolve_args [] resolvedPath = resolvedPath"
| "resolve_args (p # ps) resolvedPath =
     (if isAbsolute resolvedPath then resolvedPath
      else if p = [] then resolve_args ps resolvedPath
      else resolve_args ps (p @ CHR ''/'' # resolvedPath))"

definition posix_resolve :: "string \<Rightarrow> string list \<Rightarrow> string" where
  "posix_resolve cwd args =
     (let resolvedPath = resolve_args (rev args @ [cwd]) [];
          resolvedAbsolute = isAbsolute resolvedPath;
          normalized = normalizeString resolvedPath (\<not> resolvedAbsolute)
      in if resolvedAbsolute then CHR ''/'' # normalized
         else if normalized \<noteq> [] then normalized else ''.'')"

definition posix_normalize :: "string \<Rightarrow> string" where
  "posix_normalize p =
     (if p = [] then ''.''
      else
        let trailingSeparator = (last p = CHR ''/'');
            normalized = normalizeString p (\<not> isAbsolute p)
        in if normalized = []
           then (if isAbsolute p then ''/'' else if trailingSeparator then ''./'' else ''.'')
           else (if isAbsolute p then ''/'' else [])
                @ normalized @ (if trailingSeparator then ''/'' else []))"

definition posix_join :: "string list \<Rightarrow> string" where
  "posix_join args =
     (case filter (\<lambda>a. a \<noteq> []) args of
        [] \<Rightarrow> ''.''
      | joined \<Rightarrow> posix_normalize (join_slash joined))"

section \<open>The metadata reader\<close>

subsection \<open>String tests\<close>

text \<open>
  \<open>endsWith\<close>, \<open>includes\<close> and \<open>toLowerCase\<close> of JavaScript strings, on file names of
  8-bit characters: only the letters A to Z have a lower case.
\<close>

definition endsWith :: "string \<Rightarrow> string \<Rightarrow> bool" where
  "endsWith s suffix =
     (length suffix \<le> length s \<and> drop (length s - length suffix) s = suffix)"

fun includes_str :: "string \<Rightarrow> string \<Rightarrow> bool" where
  "includes_str [] sub = (sub = [])"
| "includes_str (c # cs) sub = (take (length sub) (c # cs) = sub \<or> includes_str cs sub)"

definition lower_char :: "char \<Rightarrow> char" where
  "lower_char c =
     (case map_of (zip ''ABCDEFGHIJKLMNOPQRSTUVWXYZ'' ''abcdefghijklmnopqrstuvwxyz'') c of
        None \<Rightarrow> c
      | Some l \<Rightarrow> l)"

definition toLowerCase :: "string \<Rightarrow> string" where
  "toLowerCase s = map lower_char s"

text \<open>The predicate of \<open>files.filter\<close> in the win32 branch.\<close>

definition is_exe_file :: "string \<Rightarrow> bool" where
  "is_exe_file file =
     (endsWith file ''.exe'' \<and>
      \<not> list_ex (\<lambda>keyword. includes_str (toLowerCase file) keyword) [''uninstall'', ''update''])"

definition isElectronBased_win32 :: "env \<Rightarrow> string \<Rightarrow> string list \<Rightarrow> bool" where
  "isElectronBased_win32 env p files =
     (existsSync env (path_join env [p, ''resources/electron.asar'']) \<or>
      list_ex (\<lambda>dir. existsSync env (path_join env [p, dir, ''resources/electron.asar'']))
        files)"

text \<open>
  \<open>getAppInfo\<close>. The result is \<open>None\<close> when the call does not return, an error when
  the promise is rejected, and otherwise the descriptor (or \<open>undefined\<close>) with the
  number of identifiers generated so far. Everything thrown inside the win32 branch is
  caught there and gives \<open>undefined\<close>.
\<close>

definition getAppInfo ::
  "env \<Rightarrow> nat \<Rightarrow> string \<Rightarrow> (error + AppInfo option \<times> nat) option" where
  "getAppInfo env k p =
     (if platform env = ''win32'' then
        (case readdir env p of
           Inl e \<Rightarrow> Some (Inr (None, k))
         | Inr files \<Rightarrow>
             if \<not> isElectronBased_win32 env p files then Some (Inr (None, k))
             else
               (case filter is_exe_file files of
                  [] \<Rightarrow> Some (Inr (None, k))
                | exeFile # _ \<Rightarrow>
                    if exeFile = [] then Some (Inr (None, k))
                    else Some (Inr (Some \<lparr>id = v4 env k,
                                          name = path_basename env exeFile ''.exe'',
                                          icon = [],
                                          appPath = p,
                                          exePath = path_resolve env [p, exeFile]\<rparr>,
                                    Suc k))))
      else if platform env = ''darwin'' then
        (if \<not> existsSync env
                (path_join env [p, ''Contents/Frameworks/Electron Framework.framework''])
         then Some (Inr (None, k))
         else
           (case readFile env (path_join env [p, ''Contents/Info.plist'']) of
              Inl e \<Rightarrow> Some (Inl e)
            | Inr infoContent \<Rightarrow>
                (case plist_parse env infoContent of
                   Inl e \<Rightarrow> Some (Inl e)
                 | Inr info \<Rightarrow>
                     (case readIcnsAsImageUri env
                             (path_join env
                                [p, ''Contents'', ''Resources'', CFBundleIconFile info]) of
                        None \<Rightarrow> None
                      | Some (Inl e) \<Rightarrow> Some (Inl e)
                      | Some (Inr uri) \<Rightarrow>
                          Some (Inr (Some \<lparr>id = CFBundleIdentifier info,
                                            name = CFBundleDisplayName info,
                                            icon = uri,
                                            appPath = p,
                                            exePath =
                                              path_resolve env
                                                [p, ''Contents/MacOS'',
                                                 CFBundleExecutable info]\<rparr>,
                                     k))))))
      else Some (Inl (Error (''platform not supported: '' @ platform env))))"

section \<open>App discovery\<close>

definition readdirAbsolute :: "env \<Rightarrow> string \<Rightarrow> string list" where
  "readdirAbsolute env dir =
     (case readdir env dir of
        Inl e \<Rightarrow> []
      | Inr dirs \<Rightarrow> map (\<lambda>file. path_join env [dir, file]) dirs)"

definition getPossibleAppPaths :: "env \<Rightarrow> string list" where
  "getPossibleAppPaths env =
     (if platform env = ''win32'' then
        concat (map (readdirAbsolute env)
          [homedir env @ ''/AppData/Local'', ''c:/Program Files'', ''c:/Program Files (x86)''])
      else if platform env = ''darwin'' then readdirAbsolute env ''/Applications''
      else [])"

text \<open>The \<open>for (let p of appPaths)\<close> loop of \<open>getElectronApps\<close>.\<close>

fun collect_infos ::
  "env \<Rightarrow> nat \<Rightarrow> string list \<Rightarrow> AppInfo list \<Rightarrow> (error + AppInfo list \<times> nat) option" where
  "collect_infos env k [] infos = Some (Inr (infos, k))"
| "collect_infos env k (p # ps) infos =
     (case getAppInfo env k p of
        None \<Rightarrow> None
      | Some (Inl e) \<Rightarrow> Some (Inl e)
      | Some (Inr (None, k')) \<Rightarrow> collect_infos env k' ps infos
      | Some (Inr (Some info, k')) \<Rightarrow> collect_infos env k' ps (infos @ [info]))"

definition getElectronApps ::
  "env \<Rightarrow> nat \<Rightarrow> (error + (string \<rightharpoonup> AppInfo) \<times> nat) option" where
  "getElectronApps env k =
     (case collect_infos env k (getPossibleAppPaths env) [] of
        None \<Rightarrow> None
      | Some (Inl e) \<Rightarrow> Some (Inl e)
      | Some (Inr (infos, k')) \<Rightarrow>
          Some (Inr (foldl (\<lambda>a b. a(id b \<mapsto> b)) Map.empty infos, k')))"

section \<open>The debug instance manager\<close>

subsection \<open>The state container\<close>








subsection \<open>The two regular expressions\<close>

text \<open>
  \<open>/Debugger listening on ws:\/\/127.0.0.1:(\d+)\//\<close> and its DevTools twin: a fixed
  run of characters in which each unescaped dot stands for any character but a line
  terminator, then one or more digits (greedy; the slash that must follow is no digit, so
  the capture is the whole run of digits), then a slash. \<open>exec\<close> tries every start
  position from the left and returns the capture of the first match. A chunk is a text of
  8-bit characters here, so the line terminators are the line feed and the carriage
  return.
\<close>

datatype atom = Lit char | Dot

definition atom_ok :: "atom \<Rightarrow> char \<Rightarrow> bool" where
  "atom_ok a c = (case a of Lit x \<Rightarrow> c = x | Dot \<Rightarrow> c \<noteq> CHR 0x0A \<and> c \<noteq> CHR 0x0D)"

fun match_atoms :: "atom list \<Rightarrow> string \<Rightarrow> string option" where
  "match_atoms [] s = Some s"
| "match_atoms (a # pat) [] = None"
| "match_atoms (a # pat) (c # cs) = (if atom_ok a c then match_atoms pat cs else None)"

definition isDigit :: "char \<Rightarrow> bool" where
  "isDigit c = (c \<in> set ''0123456789'')"

definition match_here :: "atom list \<Rightarrow> string \<Rightarrow> string option" where
  "match_here pat s =
     (case match_atoms pat s of
        None \<Rightarrow> None
      | Some rest \<Rightarrow>
          (case dropWhile isDigit rest of
             [] \<Rightarrow> None
           | c # _ \<Rightarrow>
               if takeWhile isDigit rest \<noteq> [] \<and> c = CHR ''/''
               then Some (takeWhile isDigit rest) else None))"

fun regex_exec :: "atom list \<Rightarrow> string \<Rightarrow> string option" where
  "regex_exec pat [] = match_here pat []"
| "regex_exec pat (c # cs) =
     (case match_here pat (c # cs) of
        Some port \<Rightarrow> Some port
      | None \<Rightarrow> regex_exec pat cs)"

definition listening_on :: "string \<Rightarrow> atom list" where
  "listening_on who =
     map Lit (who @ '' listening on ws://127'') @
     [Dot, Lit CHR ''0'', Dot, Lit CHR ''0'', Dot, Lit CHR ''1'', Lit CHR '':'']"

definition node_re :: "atom list" where
  "node_re = listening_on ''Debugger''"

definition window_re :: "atom list" where
  "window_re = listening_on ''DevTools''"

subsection \<open>The listeners\<close>








section \<open>Example files and hosts\<close>

text \<open>
  Three entries of declared lengths 9, 12 and 12; the payloads of the second and the
  third have \<open>PNG\<close> at offsets 1 to 3 and differ in their first byte.
\<close>

definition three_icons :: buffer where
  "three_icons =
     [0x69, 0x63, 0x6E, 0x73, 0, 0, 0, 0x29,
      0x69, 0x63, 0x30, 0x34, 0, 0, 0, 9, 0x01,
      0x69, 0x63, 0x30, 0x37, 0, 0, 0, 12, 0x89, 0x50, 0x4E, 0x47,
      0x69, 0x63, 0x30, 0x38, 0, 0, 0, 12, 0x00, 0x50, 0x4E, 0x47]"

text \<open>
  The 44 bytes of the specification's first scenario: total length 0x2C, one entry of
  length 0x24 whose 28 payload bytes start with the PNG signature.
\<close>

definition png_payload :: buffer where
  "png_payload =
     [0x89, 0x50, 0x4E, 0x47, 0x0D, 0x0A, 0x1A, 0x0A, 0, 0, 0, 0x0D, 0x49, 0x48,
      0x44, 0x52, 0, 0, 0, 1, 0, 0, 0, 1, 8, 6, 0, 0]"

definition one_png_icon :: buffer where
  "one_png_icon =
     [0x69, 0x63, 0x6E, 0x73, 0, 0, 0, 0x2C, 0x69, 0x63, 0x30, 0x37, 0, 0, 0, 0x24]
     @ png_payload"


definition zero_length_icon :: buffer where
  "zero_length_icon =
     [0x69, 0x63, 0x6E, 0x73, 0, 0, 0, 16, 0x69, 0x63, 0x30, 0x37, 0, 0, 0, 0]"

text \<open>
  A host given by its platform, its files and its directories. Its paths are joined with
  slashes (\<open>path.posix\<close>, working directory \<open>/\<close>), a base name is the name without
  the extension, every property list parses to the fields of the Acme bundle, and the
  \<open>k\<close>-th identifier is \<open>k\<close> times the letter \<open>i\<close>.
\<close>

definition acme_info :: plist_info where
  "acme_info = \<lparr>CFBundleIdentifier = ''com.acme.app'', CFBundleDisplayName = ''Acme'',
                 CFBundleExecutable = ''Acme'', CFBundleIconFile = ''icon.icns''\<rparr>"

definition example_host ::
  "string \<Rightarrow> (string \<times> buffer) list \<Rightarrow> (string \<times> string list) list \<Rightarrow> env" where
  "example_host plat files dirs =
     \<lparr>platform = plat,
      homedir = ''/Users/me'',
      readFile = (\<lambda>p. case map_of files p of
                         None \<Rightarrow> Inl (SystemError ''ENOENT'')
                       | Some b \<Rightarrow> Inr b),
      readdir = (\<lambda>p. case map_of dirs p of
                        None \<Rightarrow> Inl (SystemError ''ENOENT'')
                      | Some names \<Rightarrow> Inr names),
      existsSync = (\<lambda>p. map_of files p \<noteq> None \<or> map_of dirs p \<noteq> None),
      path_join = posix_join,
      path_resolve = posix_resolve ''/'',
      path_basename = (\<lambda>p ext. if endsWith p ext then take (length p - length ext) p else p),
      plist_parse = (\<lambda>content. Inr acme_info),
      v4 = (\<lambda>k. replicate k CHR ''i'')\<rparr>"

definition icns_host :: "buffer \<Rightarrow> env" where
  "icns_host file = example_host ''darwin'' [(''/icon.icns'', file)] []"

text \<open>
  The Acme bundle of the specification's second scenario on a darwin host, given the
  working directory, the path of the bundle and whether the bundle has its icon file.
\<close>

definition acme_bundle_host :: "string \<Rightarrow> string \<Rightarrow> bool \<Rightarrow> env" where
  "acme_bundle_host cwd bundle with_icon =
     (example_host ''darwin''
        ((bundle @ ''/Contents/Info.plist'', []) #
         (if with_icon then [(bundle @ ''/Contents/Resources/icon.icns'', one_png_icon)]
          else []))
        [(bundle @ ''/Contents/Frameworks/Electron Framework.framework'', [])])
     \<lparr>path_resolve := posix_resolve cwd\<rparr>"

definition acme_host :: env where
  "acme_host = acme_bundle_host ''/'' ''/Applications/Acme.app'' True"

definition acme_host_without_icon :: env where
  "acme_host_without_icon = acme_bundle_host ''/'' ''/Applications/Acme.app'' False"

definition acme_host_relative :: env where
  "acme_host_relative = acme_bundle_host ''/Applications'' ''Acme.app'' True"

text \<open>
  Three win32 installations, whose paths are already absolute and are written with
  slashes, which Windows accepts: \<open>resolve\<close> joins them. A host of a third platform.
\<close>

definition win32_host :: "string list \<Rightarrow> env" where
  "win32_host names =
     (example_host ''win32''
        [(''c:/Program Files/Acme/resources/electron.asar'', [])]
        [(''c:/Program Files/Acme'', names)])
     \<lparr>path_resolve := join_slash\<rparr>"

definition acme_win32 :: env where
  "acme_win32 =
     win32_host [''Uninstall Acme.exe'', ''UPDATE.exe'', ''readme.txt'', ''Acme.exe'', ''Helper.exe'']"

definition helpers_win32 :: env where
  "helpers_win32 = win32_host [''Uninstall Acme.exe'', ''update.exe'']"

definition upper_win32 :: env where
  "upper_win32 = win32_host [''Acme.EXE'', ''Helper.Exe'', ''readme.txt'']"

definition linux_host :: env where
  "linux_host = example_host ''linux'' [] [(''/Applications'', [''Acme.app''])]"



definition other_chunk :: string where
  "other_chunk = ''Debugger listening on ws://127.0.0.1:5858/x DevTools listening on ws://127.0.0.1:4000/y''"

section \<open>The icon extractor: lemmas\<close>

subsection \<open>The stable sort\<close>

lemma insert_by_not_Nil: "insert_by cmp x ys \<noteq> []"
  by (cases ys) auto

lemma sort_by_Cons: "sort_by cmp (x # xs) = insert_by cmp x (sort_by cmp xs)"
  by (simp add: sort_by_def)

lemma sort_by_Nil_iff: "sort_by cmp xs = [] \<longleftrightarrow> xs = []"
  by (cases xs) (simp_all add: sort_by_def insert_by_not_Nil)

lemma hd_sort_by_first_largest:
  "icons \<noteq> [] \<Longrightarrow>
   \<exists>pre post. icons = pre @ hd (sort_by by_size_desc icons) # post
     \<and> (\<forall>a \<in> set pre. size a < size (hd (sort_by by_size_desc icons)))
     \<and> (\<forall>a \<in> set post. size a \<le> size (hd (sort_by by_size_desc icons)))"
proof (induction icons)
  case Nil
  then show ?case by simp
next
  case (Cons x xs)
  show ?case
  proof (cases "xs = []")
    case True
    have "[x] = [] @ x # [] \<and> (\<forall>a \<in> set []. size a < size x)
        \<and> (\<forall>a \<in> set []. size a \<le> size x)"
      by simp
    then have "\<exists>pre post. [x] = pre @ x # post \<and> (\<forall>a \<in> set pre. size a < size x)
        \<and> (\<forall>a \<in> set post. size a \<le> size x)"
      by blast
    then show ?thesis using True
      by (simp add: sort_by_def)
  next
    case False
    define e where "e = hd (sort_by by_size_desc xs)"
    from False Cons.IH obtain pre post where
      xs: "xs = pre @ e # post" and pre: "\<forall>a \<in> set pre. size a < size e"
      and post: "\<forall>a \<in> set post. size a \<le> size e"
      unfolding e_def by blast
    from False obtain y ys where s: "sort_by by_size_desc xs = y # ys"
      by (cases "sort_by by_size_desc xs") (simp_all add: sort_by_Nil_iff)
    then have ye: "y = e" by (simp add: e_def)
    show ?thesis
    proof (cases "size e \<le> size x")
      case True
      then have h: "hd (sort_by by_size_desc (x # xs)) = x"
        by (simp add: sort_by_Cons s ye by_size_desc_def)
      have "\<forall>a \<in> set xs. size a \<le> size x"
        using xs pre post True by fastforce
      moreover have "x # xs = [] @ x # xs" by simp
      ultimately show ?thesis
        unfolding h by fastforce
    next
      case False
      then have h: "hd (sort_by by_size_desc (x # xs)) = e"
        by (simp add: sort_by_Cons s ye by_size_desc_def)
      have "x # xs = (x # pre) @ e # post" using xs by simp
      moreover have "\<forall>a \<in> set (x # pre). size a < size e" using pre False by simp
      ultimately show ?thesis
        unfolding h using post by blast
    qed
  qed
qed

subsection \<open>base64 round trip\<close>

lemma distinct_b64: "distinct b64_alphabet"
  by (simp add: b64_alphabet_def)

lemma index_of_nth: "distinct xs \<Longrightarrow> n < length xs \<Longrightarrow> index_of (xs ! n) xs = n"
proof (induction xs arbitrary: n)
  case Nil
  then show ?case by simp
next
  case (Cons a xs)
  then show ?case by (cases n) auto
qed

lemma length_b64: "length b64_alphabet = 64"
  by (simp add: b64_alphabet_def)

lemma b64_index_char: "n < 64 \<Longrightarrow> b64_index (b64_char n) = n"
  by (simp add: b64_index_def b64_char_def index_of_nth distinct_b64 length_b64)

lemma b64_char_not_pad: "n < 64 \<Longrightarrow> b64_char n \<noteq> CHR ''=''"
proof -
  assume "n < 64"
  then have "b64_char n \<in> set b64_alphabet"
    by (simp add: b64_char_def length_b64)
  moreover have "CHR ''='' \<notin> set b64_alphabet"
    by (simp add: b64_alphabet_def)
  ultimately show ?thesis by metis
qed

lemma unat_byte_less: "unat (a :: byte) < 256"
  using unsigned_less [of a, where 'a = nat] by simp

lemma div16: "unat (b :: byte) div 16 < 16"
  using unat_byte_less [of b] by (simp add: less_mult_imp_div_less)

lemma div64: "unat (b :: byte) div 64 < 4"
  using unat_byte_less [of b] by (simp add: less_mult_imp_div_less)

lemma sextet1_less: "sextet1 a < 64"
  using unat_byte_less [of a] by (simp add: sextet1_def less_mult_imp_div_less)

lemma sextet2_less: "sextet2 a b < 64"
proof -
  have "unat a mod 4 < 4" by simp
  then have "unat a mod 4 * 16 \<le> 48" by linarith
  with div16 [of b] show ?thesis unfolding sextet2_def by linarith
qed

lemma sextet3_less: "sextet3 b c < 64"
proof -
  have "unat b mod 16 < 16" by simp
  then have "unat b mod 16 * 4 \<le> 60" by linarith
  with div64 [of c] show ?thesis unfolding sextet3_def by linarith
qed

lemma sextet4_less: "sextet4 c < 64"
  by (simp add: sextet4_def)

lemma octet1_sextets: "octet1 (sextet1 a) (sextet2 a b) = a"
proof -
  have "(unat a mod 4 * 16 + unat b div 16) div 16 = unat a mod 4"
    using div16 [of b] by simp
  then have "unat a div 4 * 4 + (unat a mod 4 * 16 + unat b div 16) div 16 = unat a"
    by simp
  then show ?thesis
    unfolding octet1_def sextet1_def sextet2_def by simp
qed

lemma octet2_sextets: "octet2 (sextet2 a b) (sextet3 b c) = b"
proof -
  have "(unat a mod 4 * 16 + unat b div 16) mod 16 = unat b div 16"
    using div16 [of b] by simp
  moreover have "(unat b mod 16 * 4 + unat c div 64) div 4 = unat b mod 16"
    using div64 [of c] by simp
  ultimately have "(unat a mod 4 * 16 + unat b div 16) mod 16 * 16
     + (unat b mod 16 * 4 + unat c div 64) div 4 = unat b"
    by simp
  then show ?thesis
    unfolding octet2_def sextet2_def sextet3_def by simp
qed

lemma octet3_sextets: "octet3 (sextet3 b c) (sextet4 c) = c"
proof -
  have "(unat b mod 16 * 4 + unat c div 64) mod 4 = unat c div 64"
    using div64 [of c] by simp
  then have "(unat b mod 16 * 4 + unat c div 64) mod 4 * 64 + unat c mod 64 = unat c"
    by simp
  then show ?thesis
    unfolding octet3_def sextet3_def sextet4_def by simp
qed

lemma base64_roundtrip: "base64_decode (base64 bs) = bs"
proof (induction bs rule: base64.induct)
  case (1 a b c rest)
  then show ?case
    by (simp add: b64_index_char b64_char_not_pad sextet1_less sextet2_less sextet3_less
        sextet4_less octet1_sextets octet2_sextets octet3_sextets)
next
  case (2 a b)
  then show ?case
    by (simp add: b64_index_char b64_char_not_pad sextet1_less sextet2_less sextet3_less
        octet1_sextets octet2_sextets)
next
  case (3 a)
  then show ?case
    by (simp add: b64_index_char b64_char_not_pad sextet1_less sextet2_less octet1_sextets)
next
  case 4
  then show ?case by simp
qed

subsection \<open>The parsing loop\<close>

lemma loop_done: "\<not> start < totalSize \<Longrightarrow> readIcns_loop buf totalSize start icons = Some (Inr icons)"
  by (subst readIcns_loop.simps) simp

lemma loop_error:
  "start < totalSize \<Longrightarrow> readInt32BE buf (start + 4) = Inl e \<Longrightarrow>
   readIcns_loop buf totalSize start icons = Some (Inl e)"
  by (subst readIcns_loop.simps) simp

lemma loop_next:
  "start < totalSize \<Longrightarrow> readInt32BE buf (start + 4) = Inr sz \<Longrightarrow>
   readIcns_loop buf totalSize start icons =
   readIcns_loop buf totalSize (start + sz)
     (icons @ [\<lparr>type = slice buf start (start + 4), size = sz,
                data = slice buf (start + 8) (start + sz)\<rparr>])"
  by (subst readIcns_loop.simps) simp

lemma loop_from_reached:
  "reached buf totalSize start \<Longrightarrow>
   \<exists>icons. readIcns_loop buf totalSize 0 [] = readIcns_loop buf totalSize start icons"
proof (induction rule: reached.induct)
  case reached_0
  show ?case by blast
next
  case (reached_next start sz)
  then obtain icons where
    "readIcns_loop buf totalSize 0 [] = readIcns_loop buf totalSize start icons"
    by blast
  with reached_next.hyps(2,3) show ?case
    by (metis loop_next)
qed

lemma loop_returns:
  assumes pos: "\<And>s sz. reached buf totalSize s \<Longrightarrow> s < totalSize \<Longrightarrow>
                  readInt32BE buf (s + 4) = Inr sz \<Longrightarrow> 1 \<le> sz"
  shows "reached buf totalSize start \<Longrightarrow> readIcns_loop buf totalSize start icons \<noteq> None"
proof (induction "nat (totalSize - start)" arbitrary: start icons rule: less_induct)
  case less
  show ?case
  proof (cases "start < totalSize")
    case False
    then show ?thesis by (simp add: loop_done)
  next
    case True
    show ?thesis
    proof (cases "readInt32BE buf (start + 4)")
      case (Inl e)
      with True show ?thesis by (simp add: loop_error)
    next
      case (Inr sz)
      from pos [OF less.prems True Inr] have sz: "1 \<le> sz" .
      have r: "reached buf totalSize (start + sz)"
        using less.prems True Inr by (rule reached_next)
      have "nat (totalSize - (start + sz)) < nat (totalSize - start)"
        using sz True by linarith
      from less.hyps [OF this r] show ?thesis
        by (simp add: loop_next [OF True Inr])
    qed
  qed
qed

lemma loop_stuck_aux:
  assumes "readIcns_loop buf totalSize start icons = Some y"
  shows "\<not> (start < totalSize \<and> readInt32BE buf (start + 4) = Inr 0)"
proof (rule readIcns_loop.raw_induct
    [where P = "\<lambda>b t s i r. \<not> (s < t \<and> readInt32BE b (s + 4) = Inr 0)", OF _ assms],
    goal_cases)
  case (1 loop b t s i r)
  show ?case
  proof
    assume stuck: "s < t \<and> readInt32BE b (s + 4) = Inr 0"
    with "1"(2) have "loop b t s
        (i @ [\<lparr>type = slice b s (s + 4), size = 0, data = slice b (s + 8) s\<rparr>]) = Some r"
      by simp
    from "1"(1) [OF this] stuck show False by simp
  qed
qed

lemma loop_stuck:
  "start < totalSize \<Longrightarrow> readInt32BE buf (start + 4) = Inr 0 \<Longrightarrow>
   readIcns_loop buf totalSize start icons = None"
  using loop_stuck_aux [of buf totalSize start icons] by (cases "readIcns_loop buf totalSize start icons") auto


lemma readIcns_buffer_icons:
  assumes "readInt32BE file 4 = Inr n"
    and "readIcns_loop (slice_from file 8) (n - 8) 0 [] = Some (Inr icons)"
    and "sort_by by_size_desc icons = first # others"
  shows "readIcns_buffer file = Some (Inr (image_uri (data first)))"
  using assms by (simp add: readIcns_buffer_def)

lemmas icns_eval =
  readIcns_buffer_def readIcns_loop.simps slice_from_def slice_def adjustOffset_def
  readInt32BE_def sort_by_def by_size_desc_def image_uri_def is_PNG_def

lemmas b64_eval =
  b64_char_def b64_alphabet_def sextet1_def sextet2_def sextet3_def sextet4_def

lemmas host_eval = readIcnsAsImageUri_def icns_host_def example_host_def

lemma three_icons_size: "readInt32BE three_icons 4 = Inr 41"
  by (simp add: three_icons_def readInt32BE_def)

lemma three_icons_loop:
  "readIcns_loop (slice_from three_icons 8) (41 - 8) 0 [] =
   Some (Inr [\<lparr>type = [0x69, 0x63, 0x30, 0x34], size = 9, data = [0x01]\<rparr>,
              \<lparr>type = [0x69, 0x63, 0x30, 0x37], size = 12, data = [0x89, 0x50, 0x4E, 0x47]\<rparr>,
              \<lparr>type = [0x69, 0x63, 0x30, 0x38], size = 12, data = [0x00, 0x50, 0x4E, 0x47]\<rparr>])"
  by (simp add: readIcns_loop.simps three_icons_def slice_from_def slice_def adjustOffset_def
      readInt32BE_def)

lemma one_png_icon_size: "readInt32BE one_png_icon 4 = Inr 44"
  by (simp add: one_png_icon_def readInt32BE_def)

lemma one_png_icon_loop:
  "readIcns_loop (slice_from one_png_icon 8) (44 - 8) 0 [] =
   Some (Inr [\<lparr>type = [0x69, 0x63, 0x30, 0x37], size = 36, data = png_payload\<rparr>])"
  by (simp add: readIcns_loop.simps one_png_icon_def png_payload_def slice_from_def slice_def
      adjustOffset_def readInt32BE_def)

lemma base64_png_payload:
  "base64 png_payload = ''iVBORw0KGgoAAAANSUhEUgAAAAEAAAABCAYAAA==''"
  by (simp add: png_payload_def b64_eval)

lemma one_png_icon_reached:
  "reached (slice_from one_png_icon 8) 36 s \<Longrightarrow> s = 0 \<or> s = 36"
proof (induction rule: reached.induct)
  case reached_0
  show ?case by simp
next
  case (reached_next start sz)
  then have "start = 0" by auto
  with reached_next.hyps(3) have "sz = 36"
    by (simp add: one_png_icon_def png_payload_def slice_from_def adjustOffset_def
        readInt32BE_def)
  with \<open>start = 0\<close> show ?case by simp
qed

section \<open>The icon extractor: claims\<close>

text \<open>
  Claim C1. When the file is read and the loop returns a non-empty list of entries (in
  file order, each with the length its field declares, read as a signed 32-bit
  big-endian number), the list splits around one entry \<open>e\<close>: every entry before
  \<open>e\<close> declares a strictly smaller length, no entry after \<open>e\<close> declares a larger one,
  and the result of \<open>readIcnsAsImageUri\<close> is computed from the payload of \<open>e\<close>. So the
  selected entry has the maximal declared length and is the first of those that have it.
\<close>

theorem readIcns_selects_first_largest:
  assumes "readFile env f = Inr file"
    and "readInt32BE file 4 = Inr n"
    and "readIcns_loop (slice_from file 8) (n - 8) 0 [] = Some (Inr icons)"
    and "icons \<noteq> []"
  shows "\<exists>pre e post. icons = pre @ e # post
           \<and> (\<forall>a \<in> set pre. size a < size e)
           \<and> (\<forall>a \<in> set post. size a \<le> size e)
           \<and> readIcnsAsImageUri env f = Some (Inr (image_uri (data e)))"
proof -
  from assms(4) obtain first others where s: "sort_by by_size_desc icons = first # others"
    by (cases "sort_by by_size_desc icons") (simp_all add: sort_by_Nil_iff)
  then have h: "hd (sort_by by_size_desc icons) = first" by simp
  from hd_sort_by_first_largest [OF assms(4)] obtain pre post where
    "icons = pre @ first # post" "\<forall>a \<in> set pre. size a < size first"
    "\<forall>a \<in> set post. size a \<le> size first"
    unfolding h by blast
  moreover have "readIcnsAsImageUri env f = Some (Inr (image_uri (data first)))"
    using readIcns_buffer_icons [OF assms(2,3) s] assms(1)
    by (simp add: readIcnsAsImageUri_def)
  ultimately show ?thesis
    by blast
qed

text \<open>
  At the file of three entries with lengths 9, 12 and 12, the second entry is selected:
  the result is the base64 of its payload, not of the third entry's.
\<close>

theorem readIcns_selects_first_largest_witness:
  "(\<exists>pre e post.
      [\<lparr>type = [0x69, 0x63, 0x30, 0x34], size = 9, data = [0x01]\<rparr>,
       \<lparr>type = [0x69, 0x63, 0x30, 0x37], size = 12, data = [0x89, 0x50, 0x4E, 0x47]\<rparr>,
       \<lparr>type = [0x69, 0x63, 0x30, 0x38], size = 12, data = [0x00, 0x50, 0x4E, 0x47]\<rparr>]
        = pre @ e # post
      \<and> (\<forall>a \<in> set pre. size a < size e)
      \<and> (\<forall>a \<in> set post. size a \<le> size e)
      \<and> readIcnsAsImageUri (icns_host three_icons) ''/icon.icns''
          = Some (Inr (image_uri (data e))))
   \<and> readIcnsAsImageUri (icns_host three_icons) ''/icon.icns''
      = Some (Inr ''data:image/png;base64,iVBORw=='')"
proof
  have "readFile (icns_host three_icons) ''/icon.icns'' = Inr three_icons"
    by (simp add: icns_host_def example_host_def)
  from readIcns_selects_first_largest [OF this three_icons_size three_icons_loop]
  show "\<exists>pre e post.
      [\<lparr>type = [0x69, 0x63, 0x30, 0x34], size = 9, data = [0x01]\<rparr>,
       \<lparr>type = [0x69, 0x63, 0x30, 0x37], size = 12, data = [0x89, 0x50, 0x4E, 0x47]\<rparr>,
       \<lparr>type = [0x69, 0x63, 0x30, 0x38], size = 12, data = [0x00, 0x50, 0x4E, 0x47]\<rparr>]
        = pre @ e # post
      \<and> (\<forall>a \<in> set pre. size a < size e)
      \<and> (\<forall>a \<in> set post. size a \<le> size e)
      \<and> readIcnsAsImageUri (icns_host three_icons) ''/icon.icns''
          = Some (Inr (image_uri (data e)))"
    by simp
  show "readIcnsAsImageUri (icns_host three_icons) ''/icon.icns''
      = Some (Inr ''data:image/png;base64,iVBORw=='')"
    by (simp add: host_eval icns_eval b64_eval three_icons_def)
qed

text \<open>
  Claim C2. When the payload of the selected entry (the first of the sorted entries)
  has the bytes \<open>P\<close>, \<open>N\<close>, \<open>G\<close> at offsets 1 to 3, \<open>readIcnsAsImageUri\<close> returns
  \<open>data:image/png;base64,\<close> followed by the base64 of the payload, and decoding what
  follows the prefix gives the payload back.
\<close>

theorem readIcns_png_roundtrip:
  assumes "readFile env f = Inr file"
    and "readInt32BE file 4 = Inr n"
    and "readIcns_loop (slice_from file 8) (n - 8) 0 [] = Some (Inr icons)"
    and "sort_by by_size_desc icons = selected # others"
    and "slice (data selected) 1 4 = [0x50, 0x4E, 0x47]"
  shows "readIcnsAsImageUri env f
           = Some (Inr (''data:image/png;base64,'' @ base64 (data selected)))
         \<and> base64_decode
             (drop (length ''data:image/png;base64,'')
                (''data:image/png;base64,'' @ base64 (data selected)))
           = data selected"
proof -
  have "readIcnsAsImageUri env f = Some (Inr (image_uri (data selected)))"
    using readIcns_buffer_icons [OF assms(2,3,4)] assms(1)
    by (simp add: readIcnsAsImageUri_def)
  then show ?thesis
    using assms(5) by (simp add: image_uri_def is_PNG_def base64_roundtrip)
qed

text \<open>The 44-byte container of the specification's first scenario.\<close>

theorem readIcns_png_roundtrip_witness:
  "readIcnsAsImageUri (icns_host one_png_icon) ''/icon.icns''
     = Some (Inr ''data:image/png;base64,iVBORw0KGgoAAAANSUhEUgAAAAEAAAABCAYAAA=='')
   \<and> base64_decode ''iVBORw0KGgoAAAANSUhEUgAAAAEAAAABCAYAAA=='' = png_payload"
proof -
  have rf: "readFile (icns_host one_png_icon) ''/icon.icns'' = Inr one_png_icon"
    by (simp add: icns_host_def example_host_def)
  have srt: "sort_by by_size_desc
      [\<lparr>type = [0x69, 0x63, 0x30, 0x37], size = 36, data = png_payload\<rparr>]
      = \<lparr>type = [0x69, 0x63, 0x30, 0x37], size = 36, data = png_payload\<rparr> # []"
    by (simp add: sort_by_def)
  have png: "slice (data \<lparr>type = [0x69, 0x63, 0x30, 0x37], size = 36, data = png_payload\<rparr>) 1 4
      = [0x50, 0x4E, 0x47]"
    by (simp add: png_payload_def slice_def adjustOffset_def)
  from readIcns_png_roundtrip [OF rf one_png_icon_size one_png_icon_loop srt png]
  show ?thesis
    by (simp add: base64_png_payload)
qed



text \<open>
  Claim C9. Let the header declare the total length \<open>n\<close>. If every entry the loop
  reads (at an offset it reaches, below the total) declares a length of at least 1, the
  loop returns, and so does the body of \<open>readIcnsAsImageUri\<close>. If some entry the loop
  reads declares the length 0, the loop does not return and neither does the function.
\<close>

theorem readIcns_loop_termination:
  assumes "readInt32BE file 4 = Inr n"
  shows "((\<forall>s sz. reached (slice_from file 8) (n - 8) s \<and> s < n - 8
               \<and> readInt32BE (slice_from file 8) (s + 4) = Inr sz \<longrightarrow> 1 \<le> sz)
          \<longrightarrow> (\<exists>r. readIcns_loop (slice_from file 8) (n - 8) 0 [] = Some r)
              \<and> (\<exists>r. readIcns_buffer file = Some r))
       \<and> ((\<exists>s. reached (slice_from file 8) (n - 8) s \<and> s < n - 8
               \<and> readInt32BE (slice_from file 8) (s + 4) = Inr 0)
          \<longrightarrow> readIcns_loop (slice_from file 8) (n - 8) 0 [] = None
              \<and> readIcns_buffer file = None)"
proof (intro conjI impI)
  assume pos: "\<forall>s sz. reached (slice_from file 8) (n - 8) s \<and> s < n - 8
               \<and> readInt32BE (slice_from file 8) (s + 4) = Inr sz \<longrightarrow> 1 \<le> sz"
  have "readIcns_loop (slice_from file 8) (n - 8) 0 [] \<noteq> None"
    by (rule loop_returns [OF _ reached_0]) (use pos in blast)
  then show l: "\<exists>r. readIcns_loop (slice_from file 8) (n - 8) 0 [] = Some r"
    by blast
  then show "\<exists>r. readIcns_buffer file = Some r"
    using assms
    by (auto simp: readIcns_buffer_def split: sum.splits list.splits)
next
  assume "\<exists>s. reached (slice_from file 8) (n - 8) s \<and> s < n - 8
               \<and> readInt32BE (slice_from file 8) (s + 4) = Inr 0"
  then obtain s where s: "reached (slice_from file 8) (n - 8) s" "s < n - 8"
    "readInt32BE (slice_from file 8) (s + 4) = Inr 0"
    by blast
  from loop_from_reached [OF s(1)] obtain icons where
    "readIcns_loop (slice_from file 8) (n - 8) 0 []
       = readIcns_loop (slice_from file 8) (n - 8) s icons"
    by blast
  with loop_stuck [OF s(2,3)]
  show l: "readIcns_loop (slice_from file 8) (n - 8) 0 [] = None"
    by simp
  then show "readIcns_buffer file = None"
    using assms by (simp add: readIcns_buffer_def)
qed

text \<open>
  The 44-byte container, whose one entry declares the length 36, and a container whose
  first entry declares the length 0.
\<close>

theorem readIcns_loop_termination_witness:
  "(\<exists>r. readIcns_loop (slice_from one_png_icon 8) (44 - 8) 0 [] = Some r)
   \<and> (\<exists>r. readIcns_buffer one_png_icon = Some r)
   \<and> reached (slice_from zero_length_icon 8) (16 - 8) 0
   \<and> readInt32BE (slice_from zero_length_icon 8) (0 + 4) = Inr 0
   \<and> readIcns_loop (slice_from zero_length_icon 8) (16 - 8) 0 [] = None
   \<and> readIcns_buffer zero_length_icon = None"
proof -
  have pos: "\<forall>s sz. reached (slice_from one_png_icon 8) (44 - 8) s \<and> s < 44 - 8
               \<and> readInt32BE (slice_from one_png_icon 8) (s + 4) = Inr sz \<longrightarrow> 1 \<le> sz"
  proof (intro allI impI)
    fix s sz
    assume a: "reached (slice_from one_png_icon 8) (44 - 8) s \<and> s < 44 - 8
               \<and> readInt32BE (slice_from one_png_icon 8) (s + 4) = Inr sz"
    then have "s = 0" using one_png_icon_reached [of s] by simp
    with a show "1 \<le> sz"
      by (simp add: one_png_icon_def png_payload_def slice_from_def adjustOffset_def
          readInt32BE_def)
  qed
  have z: "readInt32BE zero_length_icon 4 = Inr 16"
    by (simp add: zero_length_icon_def readInt32BE_def)
  have r0: "reached (slice_from zero_length_icon 8) (16 - 8) 0"
    by (rule reached_0)
  have rd: "readInt32BE (slice_from zero_length_icon 8) (0 + 4) = Inr 0"
    by (simp add: zero_length_icon_def slice_from_def adjustOffset_def readInt32BE_def)
  have stuck: "\<exists>s. reached (slice_from zero_length_icon 8) (16 - 8) s \<and> s < 16 - 8
               \<and> readInt32BE (slice_from zero_length_icon 8) (s + 4) = Inr 0"
    using r0 rd by (intro exI [of _ 0]) simp
  from readIcns_loop_termination [OF one_png_icon_size] pos
    readIcns_loop_termination [OF z] stuck r0 rd
  show ?thesis by blast
qed

section \<open>The metadata reader: lemmas\<close>

subsection \<open>POSIX paths\<close>

lemma split_slash_not_Nil: "split_slash s \<noteq> []"
  by (induction s) (auto split: list.splits)

lemma split_slash_append:
  "split_slash (xs @ CHR ''/'' # ys) = split_slash xs @ split_slash ys"
proof (induction xs)
  case Nil
  show ?case by simp
next
  case (Cons c xs)
  then show ?case
    using split_slash_not_Nil [of xs]
    by (cases "split_slash xs") auto
qed

lemma join_slash_snoc:
  "segs \<noteq> [] \<Longrightarrow> join_slash (segs @ [x]) = join_slash segs @ CHR ''/'' # x"
  by (induction segs rule: join_slash.induct) auto

lemma isAbsolute_append: "isAbsolute p \<Longrightarrow> isAbsolute (p @ q)"
  by (cases p) (auto simp: isAbsolute_def)

lemma isAbsolute_not_Nil: "isAbsolute p \<Longrightarrow> p \<noteq> []"
  by (auto simp: isAbsolute_def)

lemma posix_resolve_single:
  assumes "isAbsolute p"
  shows "posix_resolve cwd [p] =
         CHR ''/'' # join_slash (foldl (normalize_step False) [] (split_slash p))"
proof -
  have "resolve_args [p, cwd] [] = p @ ''/''"
    using assms isAbsolute_append [OF assms, of "''/''"] isAbsolute_not_Nil [OF assms]
    by (simp add: isAbsolute_def)
  moreover have "split_slash (p @ ''/'') = split_slash p @ [[]]"
    using split_slash_append [of p "[]"] by simp
  ultimately show ?thesis
    using isAbsolute_append [OF assms, of "''/''"]
    by (simp add: posix_resolve_def normalizeString_def normalize_step_def)
qed

lemma posix_resolve_macos:
  assumes "isAbsolute p" and "posix_resolve cwd [p] = p" and "p \<noteq> ''/''"
  shows "posix_resolve cwd [p, ''Contents/MacOS'', ''Acme''] = p @ ''/Contents/MacOS/Acme''"
proof -
  define segs where "segs = foldl (normalize_step False) [] (split_slash p)"
  have p: "p = CHR ''/'' # join_slash segs"
    using posix_resolve_single [OF assms(1), of cwd] assms(2) by (simp add: segs_def)
  with assms(3) have ne: "segs \<noteq> []" by auto
  have r: "resolve_args [''Acme'', ''Contents/MacOS'', p, cwd] [] = p @ ''/Contents/MacOS/Acme/''"
    using isAbsolute_append [OF assms(1), of "''/Contents/MacOS/Acme/''"]
      isAbsolute_not_Nil [OF assms(1)]
    by (simp add: isAbsolute_def)
  have "split_slash (p @ ''/Contents/MacOS/Acme/'')
        = split_slash p @ split_slash ''Contents/MacOS/Acme/''"
    using split_slash_append [of p "''Contents/MacOS/Acme/''"] by simp
  then have s: "split_slash (p @ ''/Contents/MacOS/Acme/'')
        = split_slash p @ [''Contents'', ''MacOS'', ''Acme'', []]"
    by simp
  have "foldl (normalize_step False) [] (split_slash (p @ ''/Contents/MacOS/Acme/''))
        = segs @ [''Contents'', ''MacOS'', ''Acme'']"
    unfolding s by (simp add: segs_def normalize_step_def)
  moreover have "join_slash (segs @ [''Contents'', ''MacOS'', ''Acme''])
        = join_slash segs @ ''/Contents/MacOS/Acme''"
    using join_slash_snoc [of "segs @ [''Contents'', ''MacOS'']" "''Acme''"]
      join_slash_snoc [of "segs @ [''Contents'']" "''MacOS''"]
      join_slash_snoc [OF ne, of "''Contents''"]
    by simp
  ultimately have "posix_resolve cwd [p, ''Contents/MacOS'', ''Acme'']
        = CHR ''/'' # join_slash segs @ ''/Contents/MacOS/Acme''"
    using r isAbsolute_append [OF assms(1), of "''/Contents/MacOS/Acme/''"]
    by (simp add: posix_resolve_def normalizeString_def)
  with p show ?thesis by simp
qed

subsection \<open>The executable filter\<close>

lemmas path_eval =
  posix_join_def posix_normalize_def posix_resolve_def normalizeString_def normalize_step_def
  isAbsolute_def

lemmas str_eval = is_exe_file_def endsWith_def toLowerCase_def lower_char_def

lemma filter_first:
  "\<forall>g \<in> set pre. \<not> P g \<Longrightarrow> P f \<Longrightarrow> filter P (pre @ f # post) = f # filter P post"
  by (induction pre) auto

lemma is_exe_file_not_Nil: "is_exe_file f \<Longrightarrow> f \<noteq> []"
  by (auto simp: is_exe_file_def endsWith_def)

lemma lower_exe: "map lower_char ''.exe'' = ''.exe''"
  by (simp add: lower_char_def)

lemma endsWith_exe_lower: "endsWith f ''.exe'' \<Longrightarrow> endsWith (toLowerCase f) ''.exe''"
proof -
  assume a: "endsWith f ''.exe''"
  then have d: "drop (length f - length ''.exe'') f = ''.exe''"
    unfolding endsWith_def by blast
  have "drop (length f - length ''.exe'') (map lower_char f)
        = map lower_char (drop (length f - length ''.exe'') f)"
    by (rule drop_map)
  also have "\<dots> = ''.exe''"
    unfolding d by (rule lower_exe)
  finally show ?thesis
    using a unfolding endsWith_def toLowerCase_def by simp
qed

lemma acme_win32_readdir:
  "readdir acme_win32 ''c:/Program Files/Acme'' =
   Inr [''Uninstall Acme.exe'', ''UPDATE.exe'', ''readme.txt'', ''Acme.exe'', ''Helper.exe'']"
  by (simp add: acme_win32_def win32_host_def example_host_def)

lemma acme_win32_electron:
  "isElectronBased_win32 acme_win32 ''c:/Program Files/Acme''
     [''Uninstall Acme.exe'', ''UPDATE.exe'', ''readme.txt'', ''Acme.exe'', ''Helper.exe'']"
  by (simp add: isElectronBased_win32_def acme_win32_def win32_host_def example_host_def path_eval)

lemmas win32_eval = acme_win32_def helpers_win32_def upper_win32_def win32_host_def example_host_def

lemma acme_paths:
  "posix_join [''/Applications/Acme.app'', ''Contents/Frameworks/Electron Framework.framework'']
     = ''/Applications/Acme.app/Contents/Frameworks/Electron Framework.framework''"
  "posix_join [''/Applications/Acme.app'', ''Contents/Info.plist'']
     = ''/Applications/Acme.app/Contents/Info.plist''"
  "posix_join [''/Applications/Acme.app'', ''Contents'', ''Resources'', ''icon.icns'']
     = ''/Applications/Acme.app/Contents/Resources/icon.icns''"
  "posix_resolve ''/'' [''/Applications/Acme.app''] = ''/Applications/Acme.app''"
  by (simp_all add: path_eval)

lemma acme_relative_paths:
  "posix_join [''Acme.app'', ''Contents/Frameworks/Electron Framework.framework'']
     = ''Acme.app/Contents/Frameworks/Electron Framework.framework''"
  "posix_join [''Acme.app'', ''Contents/Info.plist''] = ''Acme.app/Contents/Info.plist''"
  "posix_join [''Acme.app'', ''Contents'', ''Resources'', ''icon.icns'']
     = ''Acme.app/Contents/Resources/icon.icns''"
  "posix_resolve ''/Applications'' [''Acme.app'', ''Contents/MacOS'', ''Acme'']
     = ''/Applications/Acme.app/Contents/MacOS/Acme''"
  by (simp_all add: path_eval)

lemmas acme_eval =
  acme_host_def acme_host_without_icon_def acme_host_relative_def acme_bundle_host_def
  example_host_def acme_info_def

lemma one_png_icon_uri:
  "readIcns_buffer one_png_icon =
     Some (Inr ''data:image/png;base64,iVBORw0KGgoAAAANSUhEUgAAAAEAAAABCAYAAA=='')"
proof -
  have "readIcns_buffer one_png_icon = Some (Inr (image_uri png_payload))"
    using readIcns_buffer_icons [OF one_png_icon_size one_png_icon_loop, of _ "[]"]
    by (simp add: sort_by_def)
  moreover have "image_uri png_payload =
      ''data:image/png;base64,iVBORw0KGgoAAAANSUhEUgAAAAEAAAABCAYAAA==''"
    by (simp add: image_uri_def is_PNG_def slice_def adjustOffset_def base64_png_payload)
      (simp add: png_payload_def)
  ultimately show ?thesis by simp
qed

section \<open>The metadata reader and discovery: claims\<close>

text \<open>
  Claim C6. On win32, for a directory that is listed and passes the check for
  \<open>resources/electron.asar\<close>: when \<open>f\<close> is the first listed name that ends in
  \<open>.exe\<close> and contains neither \<open>uninstall\<close> nor \<open>update\<close> in lower case,
  \<open>getAppInfo\<close> returns the descriptor whose executable is \<open>f\<close> resolved under the
  directory, whatever excluded files are listed before or after it; when every listed
  name contains one of the two keywords, or none ends in \<open>.exe\<close>, it returns no
  descriptor.
\<close>

theorem getAppInfo_win32_first_exe:
  assumes "platform env = ''win32''"
    and "readdir env p = Inr files"
    and "isElectronBased_win32 env p files"
  shows "(\<forall>pre f post. files = pre @ f # post \<and> (\<forall>g \<in> set pre. \<not> is_exe_file g)
              \<and> is_exe_file f
            \<longrightarrow> getAppInfo env k p =
                Some (Inr (Some \<lparr>id = v4 env k, name = path_basename env f ''.exe'',
                                  icon = [], appPath = p,
                                  exePath = path_resolve env [p, f]\<rparr>, Suc k)))
       \<and> ((\<forall>f \<in> set files.
               list_ex (\<lambda>keyword. includes_str (toLowerCase f) keyword)
                 [''uninstall'', ''update''])
            \<or> (\<forall>f \<in> set files. \<not> endsWith f ''.exe'')
            \<longrightarrow> getAppInfo env k p = Some (Inr (None, k)))"
proof (intro conjI allI impI)
  fix pre f post
  assume a: "files = pre @ f # post \<and> (\<forall>g \<in> set pre. \<not> is_exe_file g) \<and> is_exe_file f"
  then have "filter is_exe_file files = f # filter is_exe_file post"
    by (simp add: filter_first)
  moreover from a have "f \<noteq> []" by (simp add: is_exe_file_not_Nil)
  ultimately show "getAppInfo env k p =
      Some (Inr (Some \<lparr>id = v4 env k, name = path_basename env f ''.exe'',
                        icon = [], appPath = p,
                        exePath = path_resolve env [p, f]\<rparr>, Suc k))"
    using assms by (simp add: getAppInfo_def)
next
  assume "(\<forall>f \<in> set files.
               list_ex (\<lambda>keyword. includes_str (toLowerCase f) keyword)
                 [''uninstall'', ''update''])
          \<or> (\<forall>f \<in> set files. \<not> endsWith f ''.exe'')"
  then have "\<forall>f \<in> set files. \<not> is_exe_file f"
    by (auto simp: is_exe_file_def)
  then have "filter is_exe_file files = []"
    by (simp add: filter_empty_conv)
  then show "getAppInfo env k p = Some (Inr (None, k))"
    using assms by (simp add: getAppInfo_def)
qed

text \<open>
  A directory with an uninstaller, an updater and two other executables, and a directory
  with an uninstaller and an updater only.
\<close>

theorem getAppInfo_win32_first_exe_witness:
  "getAppInfo acme_win32 0 ''c:/Program Files/Acme'' =
     Some (Inr (Some \<lparr>id = [], name = ''Acme'', icon = [],
                       appPath = ''c:/Program Files/Acme'',
                       exePath = ''c:/Program Files/Acme/Acme.exe''\<rparr>, 1))
   \<and> getAppInfo helpers_win32 0 ''c:/Program Files/Acme'' = Some (Inr (None, 0))"
proof -
  have pl: "platform acme_win32 = ''win32''"
    by (simp add: win32_eval)
  have files: "[''Uninstall Acme.exe'', ''UPDATE.exe'', ''readme.txt'', ''Acme.exe'', ''Helper.exe'']
      = [''Uninstall Acme.exe'', ''UPDATE.exe'', ''readme.txt''] @ ''Acme.exe'' # [''Helper.exe'']
      \<and> (\<forall>g \<in> set [''Uninstall Acme.exe'', ''UPDATE.exe'', ''readme.txt'']. \<not> is_exe_file g)
      \<and> is_exe_file ''Acme.exe''"
    by (simp add: str_eval)
  have pl2: "platform helpers_win32 = ''win32''"
    by (simp add: win32_eval)
  have rd2: "readdir helpers_win32 ''c:/Program Files/Acme''
      = Inr [''Uninstall Acme.exe'', ''update.exe'']"
    by (simp add: win32_eval)
  have el2: "isElectronBased_win32 helpers_win32 ''c:/Program Files/Acme''
      [''Uninstall Acme.exe'', ''update.exe'']"
    by (simp add: isElectronBased_win32_def win32_eval path_eval)
  have ex2: "\<forall>f \<in> set [''Uninstall Acme.exe'', ''update.exe''].
      list_ex (\<lambda>keyword. includes_str (toLowerCase f) keyword) [''uninstall'', ''update'']"
    by (simp add: str_eval)
  have v: "v4 acme_win32 0 = []" "path_basename acme_win32 ''Acme.exe'' ''.exe'' = ''Acme''"
    "path_resolve acme_win32 [''c:/Program Files/Acme'', ''Acme.exe'']
       = ''c:/Program Files/Acme/Acme.exe''"
    by (simp_all add: win32_eval endsWith_def)
  from getAppInfo_win32_first_exe [OF pl acme_win32_readdir acme_win32_electron, of 0]
    getAppInfo_win32_first_exe [OF pl2 rd2 el2, of 0] files ex2 v
  show ?thesis
    by (metis One_nat_def)
qed

text \<open>
  Claim C10. On win32 the suffix test compares \<open>.exe\<close> as written, while the two
  keywords are looked for in the lower-cased name. So when every listed name that ends in
  \<open>.exe\<close> after lower-casing does not end in \<open>.exe\<close> as written, the filter keeps
  no name and \<open>getAppInfo\<close> returns no descriptor; and two names that both end in
  \<open>.exe\<close> and differ only in the case of their letters are both kept or both
  excluded.
\<close>

theorem getAppInfo_win32_suffix_case_sensitive:
  assumes "platform env = ''win32''"
    and "readdir env p = Inr files"
  shows "((\<forall>f \<in> set files. endsWith (toLowerCase f) ''.exe'' \<longrightarrow> \<not> endsWith f ''.exe'')
          \<longrightarrow> filter is_exe_file files = [] \<and> getAppInfo env k p = Some (Inr (None, k)))
       \<and> (\<forall>f g. toLowerCase f = toLowerCase g \<and> endsWith f ''.exe'' \<and> endsWith g ''.exe''
            \<longrightarrow> is_exe_file f = is_exe_file g)"
proof (intro conjI impI allI)
  assume up: "\<forall>f \<in> set files. endsWith (toLowerCase f) ''.exe'' \<longrightarrow> \<not> endsWith f ''.exe''"
  have "\<forall>f \<in> set files. \<not> endsWith f ''.exe''"
    using up endsWith_exe_lower by blast
  then show none: "filter is_exe_file files = []"
    by (simp add: filter_empty_conv is_exe_file_def)
  then show "getAppInfo env k p = Some (Inr (None, k))"
    using assms by (simp add: getAppInfo_def)
next
  fix f g
  assume "toLowerCase f = toLowerCase g \<and> endsWith f ''.exe'' \<and> endsWith g ''.exe''"
  then show "is_exe_file f = is_exe_file g"
    by (simp add: is_exe_file_def)
qed

text \<open>
  A directory whose executables are \<open>Acme.EXE\<close> and \<open>Helper.Exe\<close>; the names
  \<open>update.exe\<close> and \<open>UPDATE.exe\<close>.
\<close>

theorem getAppInfo_win32_suffix_case_sensitive_witness:
  "filter is_exe_file [''Acme.EXE'', ''Helper.Exe'', ''readme.txt''] = []
   \<and> getAppInfo upper_win32 0 ''c:/Program Files/Acme'' = Some (Inr (None, 0))
   \<and> endsWith (toLowerCase ''Acme.EXE'') ''.exe''
   \<and> is_exe_file ''Acme.exe''
   \<and> is_exe_file ''update.exe'' = is_exe_file ''UPDATE.exe''
   \<and> \<not> is_exe_file ''UPDATE.exe''"
proof -
  have pl: "platform upper_win32 = ''win32''"
    by (simp add: win32_eval)
  have rd: "readdir upper_win32 ''c:/Program Files/Acme''
      = Inr [''Acme.EXE'', ''Helper.Exe'', ''readme.txt'']"
    by (simp add: win32_eval)
  have up: "\<forall>f \<in> set [''Acme.EXE'', ''Helper.Exe'', ''readme.txt''].
      endsWith (toLowerCase f) ''.exe'' \<longrightarrow> \<not> endsWith f ''.exe''"
    by (simp add: endsWith_def)
  have lo: "toLowerCase ''update.exe'' = toLowerCase ''UPDATE.exe''
      \<and> endsWith ''update.exe'' ''.exe'' \<and> endsWith ''UPDATE.exe'' ''.exe''"
    by (simp add: str_eval)
  have "endsWith (toLowerCase ''Acme.EXE'') ''.exe''"
    by (simp add: str_eval)
  moreover have "is_exe_file ''Acme.exe''"
    by (simp add: str_eval)
  moreover have "\<not> is_exe_file ''UPDATE.exe''"
    by (simp add: str_eval)
  ultimately show ?thesis
    using getAppInfo_win32_suffix_case_sensitive [OF pl rd, of 0] up lo by blast
qed

text \<open>
  Claim C7. On a platform other than win32 and darwin, \<open>getElectronApps\<close> returns the
  empty mapping and draws no identifier, while \<open>getAppInfo\<close> on any path is rejected
  with the error \<open>platform not supported\<close>.
\<close>

theorem getElectronApps_unsupported_platform:
  assumes "platform env \<noteq> ''win32''" and "platform env \<noteq> ''darwin''"
  shows "getElectronApps env k = Some (Inr (Map.empty, k))
         \<and> (\<forall>p. getAppInfo env k p
                  = Some (Inl (Error (''platform not supported: '' @ platform env))))"
  using assms by (simp add: getElectronApps_def getPossibleAppPaths_def getAppInfo_def)

text \<open>
  A linux host.
\<close>

theorem getElectronApps_unsupported_platform_witness:
  "getElectronApps linux_host 0 = Some (Inr (Map.empty, 0))
   \<and> getAppInfo linux_host 0 ''/Applications/Acme.app''
       = Some (Inl (Error ''platform not supported: linux''))"
proof -
  have pl: "platform linux_host = ''linux''"
    by (simp add: linux_host_def example_host_def)
  from getElectronApps_unsupported_platform [of linux_host 0] pl show ?thesis
    by simp
qed

text \<open>
  Claim C8, as stated, fails. On darwin, a bundle with the framework marker and the four
  fields of the scenario whose icon file cannot be read makes \<open>getAppInfo\<close> reject
  with the error of \<open>readFile\<close> instead of returning a descriptor. And for the bundle
  path \<open>Acme.app\<close>, relative to the working directory \<open>/Applications\<close>, the
  executable path of the descriptor is the resolved, absolute path and not the bundle path
  followed by \<open>/Contents/MacOS/Acme\<close>.
\<close>

theorem getAppInfo_darwin_acme_counterexample:
  "platform acme_host_without_icon = ''darwin''
   \<and> existsSync acme_host_without_icon
       (path_join acme_host_without_icon
          [''/Applications/Acme.app'', ''Contents/Frameworks/Electron Framework.framework''])
   \<and> readFile acme_host_without_icon
       (path_join acme_host_without_icon [''/Applications/Acme.app'', ''Contents/Info.plist''])
       = Inr []
   \<and> plist_parse acme_host_without_icon [] =
       Inr \<lparr>CFBundleIdentifier = ''com.acme.app'', CFBundleDisplayName = ''Acme'',
            CFBundleExecutable = ''Acme'', CFBundleIconFile = ''icon.icns''\<rparr>
   \<and> getAppInfo acme_host_without_icon 0 ''/Applications/Acme.app''
       = Some (Inl (SystemError ''ENOENT''))
   \<and> getAppInfo acme_host_relative 0 ''Acme.app''
       = Some (Inr (Some \<lparr>id = ''com.acme.app'', name = ''Acme'',
                     icon = ''data:image/png;base64,iVBORw0KGgoAAAANSUhEUgAAAAEAAAABCAYAAA=='',
                     appPath = ''Acme.app'',
                     exePath = ''/Applications/Acme.app/Contents/MacOS/Acme''\<rparr>, 0))"
  by (simp add: getAppInfo_def readIcnsAsImageUri_def acme_eval acme_paths
      acme_relative_paths one_png_icon_uri)

text \<open>
  Claim C8, amended. On darwin, for a bundle path with the framework marker whose
  property list has the four fields of the scenario, and whose icon file
  \<open>readIcnsAsImageUri\<close> turns into the text \<open>uri\<close>, \<open>getAppInfo\<close> returns the
  descriptor with the identifier \<open>com.acme.app\<close>, the name \<open>Acme\<close>, the icon
  \<open>uri\<close>, the bundle path as install path and \<open>Contents/MacOS\<close>, \<open>Acme\<close>
  resolved under the bundle path as executable. With the POSIX \<open>resolve\<close> and a bundle
  path that is absolute, resolves to itself and is not the root, that executable path is
  the bundle path followed by \<open>/Contents/MacOS/Acme\<close>.
\<close>

theorem getAppInfo_darwin_acme:
  assumes "platform env = ''darwin''"
    and "existsSync env
           (path_join env [p, ''Contents/Frameworks/Electron Framework.framework''])"
    and "readFile env (path_join env [p, ''Contents/Info.plist'']) = Inr content"
    and "plist_parse env content =
           Inr \<lparr>CFBundleIdentifier = ''com.acme.app'', CFBundleDisplayName = ''Acme'',
                CFBundleExecutable = ''Acme'', CFBundleIconFile = ''icon.icns''\<rparr>"
    and "readIcnsAsImageUri env (path_join env [p, ''Contents'', ''Resources'', ''icon.icns''])
           = Some (Inr uri)"
  shows "getAppInfo env k p =
           Some (Inr (Some \<lparr>id = ''com.acme.app'', name = ''Acme'', icon = uri, appPath = p,
                             exePath = path_resolve env [p, ''Contents/MacOS'', ''Acme'']\<rparr>, k))
         \<and> (path_resolve env = posix_resolve cwd \<and> isAbsolute p
              \<and> posix_resolve cwd [p] = p \<and> p \<noteq> ''/''
            \<longrightarrow> path_resolve env [p, ''Contents/MacOS'', ''Acme'']
                = p @ ''/Contents/MacOS/Acme'')"
proof
  show "getAppInfo env k p =
           Some (Inr (Some \<lparr>id = ''com.acme.app'', name = ''Acme'', icon = uri, appPath = p,
                             exePath = path_resolve env [p, ''Contents/MacOS'', ''Acme'']\<rparr>, k))"
    using assms by (simp add: getAppInfo_def)
  show "path_resolve env = posix_resolve cwd \<and> isAbsolute p
              \<and> posix_resolve cwd [p] = p \<and> p \<noteq> ''/''
            \<longrightarrow> path_resolve env [p, ''Contents/MacOS'', ''Acme'']
                = p @ ''/Contents/MacOS/Acme''"
    using posix_resolve_macos [of p cwd] by simp
qed

text \<open>
  The Acme bundle of the scenario with the 44-byte icon container.
\<close>

theorem getAppInfo_darwin_acme_witness:
  "getAppInfo acme_host 0 ''/Applications/Acme.app'' =
     Some (Inr (Some \<lparr>id = ''com.acme.app'', name = ''Acme'',
                       icon = ''data:image/png;base64,iVBORw0KGgoAAAANSUhEUgAAAAEAAAABCAYAAA=='',
                       appPath = ''/Applications/Acme.app'',
                       exePath = ''/Applications/Acme.app/Contents/MacOS/Acme''\<rparr>, 0))"
proof -
  have pl: "platform acme_host = ''darwin''"
    by (simp add: acme_eval)
  have ex: "existsSync acme_host
       (path_join acme_host
          [''/Applications/Acme.app'', ''Contents/Frameworks/Electron Framework.framework''])"
    by (simp add: acme_eval acme_paths)
  have rf: "readFile acme_host
       (path_join acme_host [''/Applications/Acme.app'', ''Contents/Info.plist'']) = Inr []"
    by (simp add: acme_eval acme_paths)
  have pp: "plist_parse acme_host [] =
       Inr \<lparr>CFBundleIdentifier = ''com.acme.app'', CFBundleDisplayName = ''Acme'',
            CFBundleExecutable = ''Acme'', CFBundleIconFile = ''icon.icns''\<rparr>"
    by (simp add: acme_eval)
  have ic: "readIcnsAsImageUri acme_host
       (path_join acme_host [''/Applications/Acme.app'', ''Contents'', ''Resources'', ''icon.icns''])
       = Some (Inr ''data:image/png;base64,iVBORw0KGgoAAAANSUhEUgAAAAEAAAABCAYAAA=='')"
    by (simp add: readIcnsAsImageUri_def acme_eval acme_paths one_png_icon_uri)
  have pr: "path_resolve acme_host = posix_resolve ''/'' \<and> isAbsolute ''/Applications/Acme.app''
      \<and> posix_resolve ''/'' [''/Applications/Acme.app''] = ''/Applications/Acme.app''
      \<and> ''/Applications/Acme.app'' \<noteq> ''/''"
    by (simp add: acme_eval acme_paths isAbsolute_def)
  from getAppInfo_darwin_acme [OF pl ex rf pp ic, of 0 "''/''"] pr show ?thesis
    by simp
qed

section \<open>The debug instance manager: lemmas\<close>

















lemmas re_eval = match_here_def node_re_def window_re_def listening_on_def atom_ok_def
  isDigit_def




lemma other_chunk_node: "regex_exec node_re other_chunk = Some ''5858''"
  by (simp add: other_chunk_def re_eval)



section \<open>The debug instance manager: claims\<close>





end
